theory Spec2Isabelle
  imports Main
begin

section \<open>agent-syscfg: signal listener, config loading, upgrade policy, HealthySleep\<close>

text \<open>
  A shallow embedding of the Go sources of viamrobotics/agent-syscfg:
  \<^item> \<open>setupExitSignalHandling\<close> (cmd main, the signal listener goroutine);
  \<^item> \<open>LoadConfig\<close>, \<open>writeFileIfNew\<close>, \<open>HealthySleep\<close> (syscfg.go);
  \<^item> \<open>EnforceUpgrades\<close> and its helpers (upgrades.go).
  Goroutines are modelled by interleaving: a schedule is a list of atomic actions, and a
  run applies them one after the other to an explicit state.
\<close>

subsection \<open>Signals and the lifecycle state\<close>

text \<open>
  The signals named in the source; \<open>os.Interrupt\<close> is \<open>SIGINT\<close>. \<open>SIGOTHER n\<close> stands for
  any signal the source does not name.
\<close>

datatype signal =
  SIGINT | SIGQUIT | SIGABRT | SIGTERM | SIGHUP | SIGURG | SIGUSR1 | SIGOTHER nat

datatype log_entry =
  Info string
  | Debugw string signal

text \<open>
  The state \<open>setupExitSignalHandling\<close> creates and its goroutine shares with the process:
  the buffered channel \<open>sigChan\<close> (capacity 16), the signals relayed to it by
  \<open>signal.Notify\<close>, the signals switched off by \<open>signal.Ignore\<close>, the atomic flag
  \<open>healthcheckRequest\<close>, the context (\<open>ctx_done\<close>; \<open>cancel_calls\<close> counts the calls of its
  cancel function), the wait group counter, whether the listener goroutine still runs, and
  the log. \<open>by_default\<close> records the signals that were left to the Go runtime's default
  action because nothing in the program had asked for them.
\<close>

record lifecycle =
  sigChan :: "signal list"
  notified :: "signal set"
  ignored :: "signal set"
  healthcheckRequest :: bool
  ctx_done :: bool
  cancel_calls :: nat
  activeBackgroundWorkers :: nat
  listening :: bool
  logged :: "log_entry list"
  by_default :: "signal list"

text \<open>\<open>signal.Notify(sigChan, os.Interrupt, syscall.SIGTERM, syscall.SIGABRT, syscall.SIGUSR1)\<close>\<close>

definition notify_set :: "signal set" where
  "notify_set = {SIGINT, SIGTERM, SIGABRT, SIGUSR1}"

text \<open>The state when \<open>setupExitSignalHandling\<close> returns: goroutine started, signals registered.\<close>

definition setupExitSignalHandling :: lifecycle where
  "setupExitSignalHandling =
     \<lparr>sigChan = [], notified = notify_set, ignored = {}, healthcheckRequest = False,
      ctx_done = False, cancel_calls = 0, activeBackgroundWorkers = 1, listening = True,
      logged = [], by_default = []\<rparr>"

text \<open>
  The context's cancel function: the first call closes \<open>ctx.Done()\<close>, a later call would
  find it closed already.
\<close>

definition cancel :: "lifecycle \<Rightarrow> lifecycle" where
  "cancel s = s\<lparr>ctx_done := True, cancel_calls := Suc (cancel_calls s)\<rparr>"

text \<open>
  The exit branch of the switch: log, \<open>signal.Ignore(os.Interrupt, SIGTERM, SIGABRT)\<close>
  (which also stops their relay to the channel), \<open>return\<close>; the deferred calls then run
  \<open>cancel()\<close> and \<open>activeBackgroundWorkers.Done()\<close>.
\<close>

definition exit_signal :: "lifecycle \<Rightarrow> lifecycle" where
  "exit_signal s =
     (let s1 = s\<lparr>logged := logged s @ [Info ''exit signal received'']\<rparr>;
          s2 = s1\<lparr>ignored := ignored s1 \<union> {SIGINT, SIGTERM, SIGABRT},
                  notified := notified s1 - {SIGINT, SIGTERM, SIGABRT}\<rparr>;
          s3 = s2\<lparr>listening := False\<rparr>;
          s4 = cancel s3
      in s4\<lparr>activeBackgroundWorkers := activeBackgroundWorkers s4 - 1\<rparr>)"

text \<open>The \<open>switch sig\<close> of the listener, in the order of the source.\<close>

fun handle :: "signal \<Rightarrow> lifecycle \<Rightarrow> lifecycle" where
  "handle SIGINT s = exit_signal s"
| "handle SIGQUIT s = exit_signal s"
| "handle SIGABRT s = exit_signal s"
| "handle SIGTERM s = exit_signal s"
| "handle SIGHUP s = s"
| "handle SIGURG s = s"
| "handle SIGUSR1 s = s\<lparr>healthcheckRequest := True\<rparr>"
| "handle (SIGOTHER n) s = s\<lparr>logged := logged s @ [Debugw ''received unknown signal'' (SIGOTHER n)]\<rparr>"

text \<open>
  One turn of the listener's \<open>for\<close> loop: \<open>sig := <-sigChan\<close> blocks on an empty channel
  (no change); a listener that has returned takes no more signals.
\<close>

definition listen :: "lifecycle \<Rightarrow> lifecycle" where
  "listen s =
     (if listening s then
        (case sigChan s of
           [] \<Rightarrow> s
         | sig # rest \<Rightarrow> handle sig (s\<lparr>sigChan := rest\<rparr>))
      else s)"

text \<open>
  The operating system delivers a signal to the process. Package os/signal drops an
  ignored signal, relays a registered one to the channel without blocking (a full channel
  loses it), and leaves any other to the runtime's default action.
\<close>

definition deliver :: "signal \<Rightarrow> lifecycle \<Rightarrow> lifecycle" where
  "deliver sig s =
     (if sig \<in> ignored s then s
      else if sig \<in> notified s then
        (if length (sigChan s) < 16 then s\<lparr>sigChan := sigChan s @ [sig]\<rparr> else s)
      else s\<lparr>by_default := by_default s @ [sig]\<rparr>)"

datatype event = Deliver signal | Listen

fun occur :: "event \<Rightarrow> lifecycle \<Rightarrow> lifecycle" where
  "occur (Deliver sig) s = deliver sig s"
| "occur Listen s = listen s"

fun run :: "event list \<Rightarrow> lifecycle \<Rightarrow> lifecycle" where
  "run [] s = s"
| "run (e # es) s = run es (occur e s)"


subsection \<open>Errors, files and external commands\<close>

text \<open>
  Go errors as values. \<open>NotExist\<close> is an error of the operating system for which
  \<open>errors.Is(err, fs.ErrNotExist)\<close> holds, \<open>OSError\<close> any other error of the operating
  system or of a started command, \<open>SyntaxError\<close> and \<open>UnmarshalTypeError\<close> are the errors
  of encoding/json, \<open>New\<close> is \<open>errw.New(text)\<close> and \<open>Wrapf err text\<close> is
  \<open>errw.Wrapf(err, format, ...)\<close> with its formatted text.
\<close>

datatype error =
  NotExist
  | OSError string
  | SyntaxError string
  | UnmarshalTypeError string
  | New string
  | Wrapf error string

text \<open>\<open>errors.Is(err, fs.ErrNotExist)\<close>: looks through the wrappers.\<close>

fun is_ErrNotExist :: "error \<Rightarrow> bool" where
  "is_ErrNotExist NotExist = True"
| "is_ErrNotExist (Wrapf e msg) = is_ErrNotExist e"
| "is_ErrNotExist e = False"

datatype zap_entry = LogError error | LogInfo string

text \<open>
  The host as the functions of this package see it. \<open>files p\<close> is what \<open>os.ReadFile(p)\<close>
  returns; \<open>mkdir_error d\<close> is the result of \<open>os.MkdirAll(d, 0o755)\<close>; \<open>write_error p\<close> is
  \<open>None\<close> when \<open>os.WriteFile(p, ...)\<close> succeeds, and otherwise its error together with
  what a later read of \<open>p\<close> would return; \<open>command\<close> gives, for a command line and the
  files it finds, its combined output, its error and the files it leaves; \<open>executed\<close> lists
  the command lines run so far; \<open>zlog\<close> is the zap logger's output. Two results of the Go
  runtime and library are fields as well: \<open>release_matches text\<close> is what
  \<open>releaseRegex.FindAllStringSubmatch(text, -1)\<close> returns, and \<open>range_order keys\<close> is the
  order in which a \<open>range\<close> over a map with these keys visits them.
\<close>

record host =
  files :: "string \<Rightarrow> error + string"
  mkdir_error :: "string \<Rightarrow> error option"
  write_error :: "string \<Rightarrow> (error \<times> (error + string)) option"
  command :: "string list \<Rightarrow> (string \<Rightarrow> error + string)
                \<Rightarrow> (string \<times> error option) \<times> (string \<Rightarrow> error + string)"
  executed :: "string list list"
  zlog :: "zap_entry list"
  release_matches :: "string \<Rightarrow> string list list"
  range_order :: "string list \<Rightarrow> string list"

subsection \<open>Config and LoadConfig\<close>

text \<open>
  \<open>LogConfig\<close> (logging.go), \<open>UpgradesConfig\<close> (upgrades.go) and \<open>Config\<close> (syscfg.go), with
  the fields the structs declare. \<open>Config\<close> has the single field \<open>Logging\<close>.
\<close>

record LogConfig =
  Disable :: bool
  SystemMaxUse :: string
  RuntimeMaxUse :: string


record Config =
  Logging :: LogConfig

text \<open>\<open>&Config{}\<close>: every field has its zero value.\<close>

definition zero_LogConfig :: LogConfig where
  "zero_LogConfig = \<lparr>Disable = False, SystemMaxUse = [], RuntimeMaxUse = []\<rparr>"

definition zero_Config :: Config where
  "zero_Config = \<lparr>Logging = zero_LogConfig\<rparr>"

text \<open>
  A parsed JSON document. The reading of the bytes (encoding/json's scanner) is a
  parameter of \<open>LoadConfig\<close> below; how a document fills the structs follows from their
  \<open>json:"..."\<close> tags and is written out here: a key is matched to a field under case
  folding, a key that matches no field is skipped, \<open>null\<close> leaves a field as it
  is, a value of the wrong kind leaves the field as it is and is reported as an
  \<open>UnmarshalTypeError\<close>, of which the first is returned when decoding ends.
\<close>

datatype json =
  JNull
  | JBool bool
  | JNumber string
  | JString string
  | JArray "json list"
  | JObject "(string \<times> json) list"

fun kind_of :: "json \<Rightarrow> string" where
  "kind_of JNull = ''null''"
| "kind_of (JBool b) = ''bool''"
| "kind_of (JNumber n) = ''number''"
| "kind_of (JString s) = ''string''"
| "kind_of (JArray js) = ''array''"
| "kind_of (JObject kvs) = ''object''"

definition lower :: "char \<Rightarrow> char" where
  "lower c = (let n = of_char c :: nat in if 65 \<le> n \<and> n \<le> 90 then char_of (n + 32) else c)"

text \<open>
  The folding of a key, on its UTF-8 bytes: besides the ASCII letters, Unicode's simple
  case folding sends two more characters to ASCII letters, the long s (U+017F, bytes
  C5 BF) to \<open>s\<close> and the Kelvin sign (U+212A, bytes E2 84 AA) to \<open>k\<close>.
\<close>

fun fold_name :: "string \<Rightarrow> string" where
  "fold_name (a # b # c # rest) =
     (if a = CHR 0xE2 \<and> b = CHR 0x84 \<and> c = CHR 0xAA then CHR ''k'' # fold_name rest
      else if a = CHR 0xC5 \<and> b = CHR 0xBF then CHR ''s'' # fold_name (c # rest)
      else lower a # fold_name (b # c # rest))"
| "fold_name [a, b] =
     (if a = CHR 0xC5 \<and> b = CHR 0xBF then [CHR ''s''] else [lower a, lower b])"
| "fold_name [a] = [lower a]"
| "fold_name [] = []"

definition field_match :: "string \<Rightarrow> string \<Rightarrow> bool" where
  "field_match key tag = (fold_name key = fold_name tag)"

definition saveError :: "error option \<Rightarrow> error option \<Rightarrow> error option" where
  "saveError saved e = (case saved of None \<Rightarrow> e | Some first \<Rightarrow> Some first)"

fun store_bool :: "json \<Rightarrow> bool \<Rightarrow> bool \<times> error option" where
  "store_bool JNull old = (old, None)"
| "store_bool (JBool b) old = (b, None)"
| "store_bool j old = (old, Some (UnmarshalTypeError (kind_of j)))"

fun store_string :: "json \<Rightarrow> string \<Rightarrow> string \<times> error option" where
  "store_string JNull old = (old, None)"
| "store_string (JString s) old = (s, None)"
| "store_string j old = (old, Some (UnmarshalTypeError (kind_of j)))"

text \<open>The keys of an object, in the order of the document, into a \<open>LogConfig\<close>.\<close>

fun decode_LogConfig_fields :: "(string \<times> json) list \<Rightarrow> LogConfig \<Rightarrow> LogConfig \<times> error option" where
  "decode_LogConfig_fields [] c = (c, None)"
| "decode_LogConfig_fields ((k, v) # kvs) c =
     (let (c1, e1) =
            (if field_match k ''disable'' then
               (let (b, e) = store_bool v (Disable c) in (c\<lparr>Disable := b\<rparr>, e))
             else if field_match k ''system_max_use'' then
               (let (x, e) = store_string v (SystemMaxUse c) in (c\<lparr>SystemMaxUse := x\<rparr>, e))
             else if field_match k ''runtime_max_use'' then
               (let (x, e) = store_string v (RuntimeMaxUse c) in (c\<lparr>RuntimeMaxUse := x\<rparr>, e))
             else (c, None));
          (c2, e2) = decode_LogConfig_fields kvs c1
      in (c2, saveError e1 e2))"

fun decode_LogConfig :: "json \<Rightarrow> LogConfig \<Rightarrow> LogConfig \<times> error option" where
  "decode_LogConfig JNull c = (c, None)"
| "decode_LogConfig (JObject kvs) c = decode_LogConfig_fields kvs c"
| "decode_LogConfig j c = (c, Some (UnmarshalTypeError (kind_of j)))"

text \<open>The keys of the top-level object into a \<open>Config\<close>: its one tag is \<open>logging\<close>.\<close>

fun decode_Config_fields :: "(string \<times> json) list \<Rightarrow> Config \<Rightarrow> Config \<times> error option" where
  "decode_Config_fields [] c = (c, None)"
| "decode_Config_fields ((k, v) # kvs) c =
     (let (c1, e1) =
            (if field_match k ''logging'' then
               (let (l, e) = decode_LogConfig v (Logging c) in (c\<lparr>Logging := l\<rparr>, e))
             else (c, None));
          (c2, e2) = decode_Config_fields kvs c1
      in (c2, saveError e1 e2))"

fun decode_Config :: "json \<Rightarrow> Config \<Rightarrow> Config \<times> error option" where
  "decode_Config JNull c = (c, None)"
| "decode_Config (JObject kvs) c = decode_Config_fields kvs c"
| "decode_Config j c = (c, Some (UnmarshalTypeError (kind_of j)))"

text \<open>
  \<open>json.Unmarshal(data, newConfig)\<close>: a syntax error is returned before anything is
  stored; otherwise the document is decoded into the struct, which keeps what was stored
  even when an error is returned.
\<close>

definition json_Unmarshal :: "(string \<Rightarrow> error + json) \<Rightarrow> string \<Rightarrow> Config \<Rightarrow> Config \<times> error option" where
  "json_Unmarshal scan data c =
     (case scan data of
        Inl e \<Rightarrow> (c, Some e)
      | Inr j \<Rightarrow> decode_Config j c)"

definition LoadConfig :: "(string \<Rightarrow> error + json) \<Rightarrow> host \<Rightarrow> string \<Rightarrow> Config \<times> error option" where
  "LoadConfig scan h path =
     (case files h path of
        Inl err \<Rightarrow>
          (if is_ErrNotExist err then (zero_Config, None) else (zero_Config, Some err))
      | Inr jsonBytes \<Rightarrow>
          (case json_Unmarshal scan jsonBytes zero_Config of
             (newConfig, Some err) \<Rightarrow> (zero_Config, Some err)
           | (newConfig, None) \<Rightarrow> (newConfig, None)))"

subsection \<open>writeFileIfNew and EnforceUpgrades\<close>





















text \<open>
  A host for examples: the given files, a package manager and a service manager whose
  commands all succeed without output and change no file, no failing directory or write.
\<close>

definition quiet_host :: "(string \<Rightarrow> error + string) \<Rightarrow> host" where
  "quiet_host fs =
     \<lparr>files = fs, mkdir_error = (\<lambda>d. None), write_error = (\<lambda>p. None),
      command = (\<lambda>cmd f. (([], None), f)), executed = [], zlog = [],
      release_matches = (\<lambda>text. []), range_order = (\<lambda>keys. keys)\<rparr>"



definition example_scan :: "string \<Rightarrow> error + json" where
  "example_scan data =
     (if data = ''{\"logging\":{\"disable\":true},\"upgrades\":{\"type\":\"all\"}}'' then
        Inr (JObject [(''logging'', JObject [(''disable'', JBool True)]),
                      (''upgrades'', JObject [(''type'', JString ''all'')])])
      else if data = ''{\"logging\":{\"disable\":true}}'' then
        Inr (JObject [(''logging'', JObject [(''disable'', JBool True)])])
      else if data = ''{\"logging\":{\"disable\":true,\"system_max_use\":5}}'' then
        Inr (JObject [(''logging'', JObject [(''disable'', JBool True),
                                             (''system_max_use'', JNumber ''5'')])])
      else Inl (SyntaxError ''invalid character''))"

subsection \<open>HealthySleep\<close>

text \<open>
  \<open>HealthySleep\<close> runs two goroutines: the caller, which waits in its \<open>select\<close> for the
  context or the timer, and the reporter it starts, which polls the flag once a second.
  Each has a program counter. For the caller: \<open>CSelect\<close> before its \<open>select\<close> is
  evaluated, \<open>CBlocked\<close> parked in it, \<open>CWoken r\<close> when a case was chosen (it will return
  \<open>r\<close>), \<open>CReturned r\<close> after \<open>return r\<close> and the deferred \<open>stop.Store(true)\<close>. For the
  reporter: \<open>RSwap\<close> before \<open>hc.Swap(false)\<close>, \<open>RPrint\<close> before
  \<open>fmt.Println("HEALTHY")\<close>, \<open>RLoad\<close> before \<open>stop.Load()\<close>, \<open>RSelect\<close> before its
  \<open>select\<close> is evaluated, \<open>RBlocked\<close> parked in it, \<open>RDone\<close> returned.
\<close>

datatype caller_pc = CSelect | CBlocked | CWoken bool | CReturned bool

datatype reporter_pc = RSwap | RPrint | RLoad | RSelect | RBlocked | RDone

text \<open>
  The state of one call. \<open>now\<close> is the time since the call in nanoseconds (the unit of
  \<open>time.Duration\<close>); \<open>cancelled\<close> says that \<open>ctx.Done()\<close> is closed; \<open>hc\<close> is the
  \<open>*atomic.Bool\<close> found under \<open>HCReqKey\<close>: \<open>None\<close> when the context has no such value
  (then \<open>hc\<close> is nil), otherwise the value of the flag; \<open>stop\<close> is the call's own
  \<open>atomic.Bool\<close>; \<open>stdout\<close> holds the lines printed; the two timers are the times at which
  the channels of \<open>time.After\<close> become ready; \<open>panicked\<close> says that a goroutine has
  panicked, which ends the process.
\<close>

record sleep =
  now :: int
  cancelled :: bool
  hc :: "bool option"
  stop :: bool
  stdout :: "string list"
  caller :: caller_pc
  caller_timer :: int
  reporter :: reporter_pc
  reporter_timer :: int
  panicked :: bool

text \<open>
  What can happen next: time passes, the context is cancelled (the listener's
  \<open>cancel()\<close>), a healthcheck is requested (the listener's
  \<open>healthcheckRequest.Store(true)\<close>), the caller takes its next step, the reporter takes
  its next step. The boolean of \<open>Caller\<close> is the choice of the caller's \<open>select\<close> for the
  case that both of its channels are ready when it is evaluated (\<open>True\<close>: the timer).
\<close>

datatype action = Advance nat | Cancel | Request | Caller bool | Reporter

definition Second :: int where
  "Second = 1000000000"

text \<open>
  The call up to its \<open>go\<close> statement (lines 63 to 73): the lookup of the flag, the
  diagnostic line when it is missing, the new \<open>stop\<close>, the reporter started.
\<close>

definition HealthySleep_start :: "bool \<Rightarrow> bool option \<Rightarrow> sleep" where
  "HealthySleep_start ctx_is_done flag =
     \<lparr>now = 0, cancelled = ctx_is_done, hc = flag, stop = False,
      stdout = (if flag = None
                then [''context passed to HealthySleep without healthcheck value'']
                else []),
      caller = CSelect, caller_timer = 0, reporter = RSwap, reporter_timer = 0,
      panicked = False\<rparr>"

text \<open>
  The caller. Its \<open>select\<close> starts the timer \<open>time.After(timeout)\<close>, which is ready at once
  for a timeout of zero or less. With both channels ready Go chooses one of the two cases
  pseudo-randomly; with one ready that case runs; with none the goroutine parks. The
  chosen case returns, and the deferred call stores \<open>stop\<close>.
\<close>

definition caller_step :: "int \<Rightarrow> bool \<Rightarrow> sleep \<Rightarrow> sleep" where
  "caller_step timeout pick s =
     (case caller s of
        CSelect \<Rightarrow>
          (if cancelled s \<and> timeout \<le> 0 then s\<lparr>caller := CWoken pick\<rparr>
           else if cancelled s then s\<lparr>caller := CWoken False\<rparr>
           else if timeout \<le> 0 then s\<lparr>caller := CWoken True\<rparr>
           else s\<lparr>caller := CBlocked, caller_timer := now s + timeout\<rparr>)
      | CBlocked \<Rightarrow> s
      | CWoken r \<Rightarrow> s\<lparr>stop := True, caller := CReturned r\<rparr>
      | CReturned r \<Rightarrow> s)"

text \<open>
  The reporter, statement by statement. \<open>hc.Swap(false)\<close> on a nil \<open>hc\<close> is a nil pointer
  dereference; nothing recovers the panic. The timer of its \<open>select\<close> needs a second, so
  only \<open>ctx.Done()\<close> can be ready when the \<open>select\<close> is evaluated.
\<close>

definition reporter_step :: "sleep \<Rightarrow> sleep" where
  "reporter_step s =
     (case reporter s of
        RSwap \<Rightarrow>
          (case hc s of
             None \<Rightarrow> s\<lparr>panicked := True\<rparr>
           | Some old \<Rightarrow> s\<lparr>hc := Some False, reporter := (if old then RPrint else RLoad)\<rparr>)
      | RPrint \<Rightarrow> s\<lparr>stdout := stdout s @ [''HEALTHY''], reporter := RLoad\<rparr>
      | RLoad \<Rightarrow> s\<lparr>reporter := (if stop s then RDone else RSelect)\<rparr>
      | RSelect \<Rightarrow>
          (if cancelled s then s\<lparr>reporter := RDone\<rparr>
           else s\<lparr>reporter := RBlocked, reporter_timer := now s + Second\<rparr>)
      | RBlocked \<Rightarrow> s
      | RDone \<Rightarrow> s)"

text \<open>
  Closing \<open>ctx.Done()\<close> wakes a goroutine parked on it with that case: the caller will
  return \<open>false\<close>, the reporter returns. The passing of time wakes a goroutine parked on a
  timer that has expired: the caller will return \<open>true\<close>, the reporter goes round its loop.
\<close>

definition cancel_ctx :: "sleep \<Rightarrow> sleep" where
  "cancel_ctx s =
     (let s1 = s\<lparr>cancelled := True\<rparr>;
          s2 = (if caller s1 = CBlocked then s1\<lparr>caller := CWoken False\<rparr> else s1)
      in if reporter s2 = RBlocked then s2\<lparr>reporter := RDone\<rparr> else s2)"

definition advance :: "nat \<Rightarrow> sleep \<Rightarrow> sleep" where
  "advance d s =
     (let s1 = s\<lparr>now := now s + int d\<rparr>;
          s2 = (if caller s1 = CBlocked \<and> caller_timer s1 \<le> now s1
                then s1\<lparr>caller := CWoken True\<rparr> else s1)
      in if reporter s2 = RBlocked \<and> reporter_timer s2 \<le> now s2
         then s2\<lparr>reporter := RSwap\<rparr> else s2)"

definition request :: "sleep \<Rightarrow> sleep" where
  "request s = (case hc s of None \<Rightarrow> s | Some old \<Rightarrow> s\<lparr>hc := Some True\<rparr>)"

fun act :: "int \<Rightarrow> action \<Rightarrow> sleep \<Rightarrow> sleep" where
  "act timeout (Advance d) s = advance d s"
| "act timeout Cancel s = cancel_ctx s"
| "act timeout Request s = request s"
| "act timeout (Caller pick) s = caller_step timeout pick s"
| "act timeout Reporter s = reporter_step s"

definition step :: "int \<Rightarrow> action \<Rightarrow> sleep \<Rightarrow> sleep" where
  "step timeout a s = (if panicked s then s else act timeout a s)"

fun exec :: "int \<Rightarrow> action list \<Rightarrow> sleep \<Rightarrow> sleep" where
  "exec timeout [] s = s"
| "exec timeout (a # acts) s = exec timeout acts (step timeout a s)"

definition returned :: "sleep \<Rightarrow> bool option" where
  "returned s = (case caller s of CReturned r \<Rightarrow> Some r | _ \<Rightarrow> None)"

text \<open>
  An example schedule for a timeout of 1.5 seconds: the reporter polls at 0 and at 1
  second, a healthcheck is requested at 1.2 seconds, the timer fires at 1.5 seconds and
  the caller returns.
\<close>

definition late_request :: "action list" where
  "late_request =
     [Caller True, Reporter, Reporter, Reporter, Advance 1000000000,
      Reporter, Reporter, Reporter, Advance 200000000, Request,
      Advance 300000000, Caller True]"

text \<open>
  The reporter's way to its next poll and through it: up to three steps to park in its
  \<open>select\<close>, the second of its timer, the swap and the line.
\<close>

definition next_poll :: "action list" where
  "next_poll = [Reporter, Reporter, Reporter, Advance 1000000000, Reporter, Reporter]"

text \<open>Predicates on the state of a call that the proofs below use.\<close>

definition sleep_inv :: "int \<Rightarrow> sleep \<Rightarrow> bool" where
  "sleep_inv timeout s =
     (0 \<le> now s
      \<and> (caller s = CBlocked \<longrightarrow>
            0 < timeout \<and> \<not> cancelled s \<and> timeout \<le> caller_timer s \<and> caller_timer s \<le> now s + timeout)
      \<and> (caller s = CWoken False \<or> caller s = CReturned False \<longrightarrow> cancelled s)
      \<and> (caller s = CWoken True \<or> caller s = CReturned True \<longrightarrow> timeout \<le> now s)
      \<and> (reporter s = RBlocked \<longrightarrow> \<not> cancelled s \<and> reporter_timer s \<le> now s + Second)
      \<and> (stop s = (\<exists>r. caller s = CReturned r))
      \<and> (panicked s \<longrightarrow> hc s = None))"

definition reporter_inv :: "sleep \<Rightarrow> bool" where
  "reporter_inv s =
     ((reporter s = RDone \<longrightarrow> stop s \<or> cancelled s)
      \<and> (reporter s = RBlocked \<longrightarrow> now s < reporter_timer s))"

definition healthy :: "sleep \<Rightarrow> nat" where
  "healthy s = count_list (stdout s) ''HEALTHY''"

definition pending :: "nat \<Rightarrow> sleep \<Rightarrow> bool" where
  "pending n s =
     (n < healthy s \<or> n = healthy s \<and> (hc s = Some True \<or> reporter s = RPrint))"

definition cancel_seen :: "sleep \<Rightarrow> bool" where
  "cancel_seen s =
     (cancelled s \<and> (caller s = CSelect \<or> caller s = CWoken False \<or> caller s = CReturned False))"

definition unstarted :: "sleep \<Rightarrow> bool" where
  "unstarted s = (reporter s = RSwap \<and> hc s = None \<and> \<not> panicked s)"

definition owed :: "sleep \<Rightarrow> nat" where
  "owed s = count_list (stdout s) ''HEALTHY''
            + (if hc s = Some True then 1 else 0) + (if reporter s = RPrint then 1 else 0)"

definition after_return :: "string list \<Rightarrow> sleep \<Rightarrow> bool" where
  "after_return out s =
     (stop s \<and> (stdout s = out
                 \<or> stdout s = out @ [''HEALTHY''] \<and> (reporter s = RLoad \<or> reporter s = RDone)))"

subsection \<open>Properties of the listener\<close>

lemma exit_signal_fields:
  "ctx_done (exit_signal s)"
  "cancel_calls (exit_signal s) = Suc (cancel_calls s)"
  "\<not> listening (exit_signal s)"
  "healthcheckRequest (exit_signal s) = healthcheckRequest s"
  "logged (exit_signal s) = logged s @ [Info ''exit signal received'']"
  "ignored (exit_signal s) = ignored s \<union> {SIGINT, SIGTERM, SIGABRT}"
  "notified (exit_signal s) = notified s - {SIGINT, SIGTERM, SIGABRT}"
  "sigChan (exit_signal s) = sigChan s"
  by (simp_all add: exit_signal_def cancel_def Let_def)





text \<open>
  C7. Taking a hangup signal, an urgent-I/O signal or an unnamed signal from the channel
  changes neither the context nor the healthcheck flag, and the listener keeps running:
  only the channel loses the signal (and an unnamed signal is logged at debug level).
\<close>

theorem listener_ignores_other_signals:
  assumes "listening s" and "sigChan s = sig # rest"
    and "sig = SIGHUP \<or> sig = SIGURG \<or> sig = SIGOTHER n"
  shows "ctx_done (listen s) = ctx_done s
       \<and> cancel_calls (listen s) = cancel_calls s
       \<and> healthcheckRequest (listen s) = healthcheckRequest s
       \<and> listening (listen s)
       \<and> notified (listen s) = notified s \<and> ignored (listen s) = ignored s
       \<and> sigChan (listen s) = rest"
  using assms by (auto simp: listen_def)

text \<open>An instance: an unnamed signal (number 28) at the head of the channel after startup.\<close>

theorem listener_ignores_other_signals_witness:
  "listening (setupExitSignalHandling\<lparr>sigChan := [SIGOTHER 28, SIGUSR1]\<rparr>)
   \<and> \<not> ctx_done (listen (setupExitSignalHandling\<lparr>sigChan := [SIGOTHER 28, SIGUSR1]\<rparr>))
   \<and> \<not> healthcheckRequest (listen (setupExitSignalHandling\<lparr>sigChan := [SIGOTHER 28, SIGUSR1]\<rparr>))
   \<and> listening (listen (setupExitSignalHandling\<lparr>sigChan := [SIGOTHER 28, SIGUSR1]\<rparr>))
   \<and> sigChan (listen (setupExitSignalHandling\<lparr>sigChan := [SIGOTHER 28, SIGUSR1]\<rparr>)) = [SIGUSR1]"
  using listener_ignores_other_signals
    [of "setupExitSignalHandling\<lparr>sigChan := [SIGOTHER 28, SIGUSR1]\<rparr>" "SIGOTHER 28" "[SIGUSR1]" 28]
  by (simp add: setupExitSignalHandling_def)



text \<open>
  C6, as stated, fails: quit is not in the set given to \<open>signal.Notify\<close>. A quit signal
  delivered after startup is left to the runtime's default action; the listener, given
  its turn, finds the channel empty, and the context stays open.
\<close>

theorem quit_is_not_registered:
  "notified setupExitSignalHandling \<noteq> {SIGINT, SIGTERM, SIGABRT, SIGQUIT, SIGUSR1}
   \<and> SIGQUIT \<notin> notified setupExitSignalHandling
   \<and> run [Deliver SIGQUIT, Listen] setupExitSignalHandling
       = setupExitSignalHandling\<lparr>by_default := [SIGQUIT]\<rparr>
   \<and> \<not> ctx_done (run [Deliver SIGQUIT, Listen] setupExitSignalHandling)"
  by (auto simp: setupExitSignalHandling_def notify_set_def deliver_def listen_def)

text \<open>
  C6, amended. On startup the controller registers exactly interrupt, terminate, abort
  and user-defined signal 1. One of these, delivered after startup and taken by the
  listener, closes the context (interrupt, terminate, abort) or sets the healthcheck flag
  (user-defined signal 1). Every other signal, quit included, is left to the runtime's
  default action and does not reach the listener (whose switch would treat a quit
  signal, had it received one, as a terminate-class signal).
\<close>

theorem registered_signal_set:
  "notified setupExitSignalHandling = {SIGINT, SIGTERM, SIGABRT, SIGUSR1}
   \<and> ctx_done (run [Deliver sig, Listen] setupExitSignalHandling)
       = (sig = SIGINT \<or> sig = SIGTERM \<or> sig = SIGABRT)
   \<and> healthcheckRequest (run [Deliver sig, Listen] setupExitSignalHandling) = (sig = SIGUSR1)
   \<and> by_default (run [Deliver sig, Listen] setupExitSignalHandling)
       = (if sig = SIGINT \<or> sig = SIGTERM \<or> sig = SIGABRT \<or> sig = SIGUSR1 then [] else [sig])
   \<and> sigChan (run [Deliver sig, Listen] setupExitSignalHandling) = []
   \<and> ctx_done (handle SIGQUIT s) \<and> \<not> listening (handle SIGQUIT s)"
  by (cases sig)
    (simp_all add: setupExitSignalHandling_def notify_set_def deliver_def listen_def
      exit_signal_fields exit_signal_def cancel_def)

subsection \<open>Properties of LoadConfig\<close>

text \<open>
  C8. When the file does not exist, \<open>LoadConfig\<close> returns the zero \<open>Config\<close> and no error.
  It returns an error only when the file exists and cannot be read, or was read and does
  not unmarshal; with every error it returns the zero \<open>Config\<close>, not the partly filled one.
\<close>

theorem LoadConfig_errors:
  "(files h path = Inl err \<and> is_ErrNotExist err \<longrightarrow> LoadConfig scan h path = (zero_Config, None))
   \<and> (snd (LoadConfig scan h path) = Some e \<longrightarrow>
        fst (LoadConfig scan h path) = zero_Config
        \<and> (files h path = Inl e \<and> \<not> is_ErrNotExist e
           \<or> (\<exists>jsonBytes. files h path = Inr jsonBytes
                \<and> snd (json_Unmarshal scan jsonBytes zero_Config) = Some e)))"
  by (auto simp: LoadConfig_def split: sum.splits prod.splits option.splits if_splits)

text \<open>
  Instances: no file at the default path; a file whose \<open>system_max_use\<close> is a number,
  which fills \<open>Disable\<close> and then fails, so that the zero \<open>Config\<close> is returned.
\<close>

theorem LoadConfig_errors_witness:
  "files (quiet_host (\<lambda>p. Inl NotExist)) ''/opt/viam/etc/agent-syscfg.json'' = Inl NotExist
   \<and> is_ErrNotExist NotExist
   \<and> LoadConfig example_scan (quiet_host (\<lambda>p. Inl NotExist)) ''/opt/viam/etc/agent-syscfg.json''
       = (zero_Config, None)
   \<and> json_Unmarshal example_scan ''{\"logging\":{\"disable\":true,\"system_max_use\":5}}'' zero_Config
       = (\<lparr>Logging = \<lparr>Disable = True, SystemMaxUse = [], RuntimeMaxUse = []\<rparr>\<rparr>,
          Some (UnmarshalTypeError ''number''))
   \<and> snd (LoadConfig example_scan
            (quiet_host (\<lambda>p. Inr ''{\"logging\":{\"disable\":true,\"system_max_use\":5}}''))
            ''/opt/viam/etc/agent-syscfg.json'') = Some (UnmarshalTypeError ''number'')
   \<and> fst (LoadConfig example_scan
            (quiet_host (\<lambda>p. Inr ''{\"logging\":{\"disable\":true,\"system_max_use\":5}}''))
            ''/opt/viam/etc/agent-syscfg.json'') = zero_Config"
proof -
  have missing:
    "files (quiet_host (\<lambda>p. Inl NotExist)) ''/opt/viam/etc/agent-syscfg.json'' = Inl NotExist"
    "is_ErrNotExist NotExist"
    by (simp_all add: quiet_host_def)
  have partly:
    "json_Unmarshal example_scan ''{\"logging\":{\"disable\":true,\"system_max_use\":5}}'' zero_Config
       = (\<lparr>Logging = \<lparr>Disable = True, SystemMaxUse = [], RuntimeMaxUse = []\<rparr>\<rparr>,
          Some (UnmarshalTypeError ''number''))"
    by (simp add: json_Unmarshal_def example_scan_def zero_Config_def zero_LogConfig_def
        field_match_def lower_def saveError_def)
  have failed:
    "snd (LoadConfig example_scan
            (quiet_host (\<lambda>p. Inr ''{\"logging\":{\"disable\":true,\"system_max_use\":5}}''))
            ''/opt/viam/etc/agent-syscfg.json'') = Some (UnmarshalTypeError ''number'')"
    by (simp add: LoadConfig_def partly quiet_host_def)
  from LoadConfig_errors
      [of "quiet_host (\<lambda>p. Inl NotExist)" "''/opt/viam/etc/agent-syscfg.json''" NotExist example_scan]
    LoadConfig_errors
      [of "quiet_host (\<lambda>p. Inr ''{\"logging\":{\"disable\":true,\"system_max_use\":5}}'')"
          "''/opt/viam/etc/agent-syscfg.json''" _ example_scan "UnmarshalTypeError ''number''"]
    missing partly failed
  show ?thesis by blast
qed

text \<open>
  C9 on the code: \<open>Config\<close> has no field for the \<open>upgrades\<close> key, so the decoder skips the
  key like any unknown one. The config file of the README's shape, with
  \<open>"upgrades":{"type":"all"}\<close>, loads to the same \<open>Config\<close> as the file without the key:
  the logging section alone.
\<close>

theorem LoadConfig_skips_upgrades:
  "decode_Config_fields ((''upgrades'', v) # kvs) c = decode_Config_fields kvs c
   \<and> LoadConfig example_scan
        (quiet_host (\<lambda>p. Inr ''{\"logging\":{\"disable\":true},\"upgrades\":{\"type\":\"all\"}}''))
        ''/opt/viam/etc/agent-syscfg.json''
       = (\<lparr>Logging = \<lparr>Disable = True, SystemMaxUse = [], RuntimeMaxUse = []\<rparr>\<rparr>, None)
   \<and> LoadConfig example_scan
        (quiet_host (\<lambda>p. Inr ''{\"logging\":{\"disable\":true}}''))
        ''/opt/viam/etc/agent-syscfg.json''
       = (\<lparr>Logging = \<lparr>Disable = True, SystemMaxUse = [], RuntimeMaxUse = []\<rparr>\<rparr>, None)"
  by (simp add: LoadConfig_def json_Unmarshal_def example_scan_def zero_Config_def
      zero_LogConfig_def field_match_def lower_def saveError_def quiet_host_def)

subsection \<open>Properties of EnforceUpgrades\<close>









subsection \<open>Properties of HealthySleep\<close>

lemma exec_append: "exec timeout (xs @ ys) s = exec timeout ys (exec timeout xs s)"
  by (induction xs arbitrary: s) simp_all

lemmas sleep_defs = HealthySleep_start_def step_def advance_def cancel_ctx_def request_def
  caller_step_def reporter_step_def returned_def Second_def

lemma sleep_inv_start: "sleep_inv timeout (HealthySleep_start c flag)"
  by (simp add: sleep_inv_def HealthySleep_start_def)

lemma sleep_inv_advance: "sleep_inv timeout s \<Longrightarrow> sleep_inv timeout (advance d s)"
  by (cases "caller s"; cases "reporter s") (auto simp: sleep_inv_def advance_def Let_def)

lemma sleep_inv_cancel_ctx: "sleep_inv timeout s \<Longrightarrow> sleep_inv timeout (cancel_ctx s)"
  by (cases "caller s"; cases "reporter s") (auto simp: sleep_inv_def cancel_ctx_def Let_def)

lemma sleep_inv_request: "sleep_inv timeout s \<Longrightarrow> sleep_inv timeout (request s)"
  by (cases "hc s") (simp_all add: sleep_inv_def request_def)

lemma sleep_inv_caller_step: "sleep_inv timeout s \<Longrightarrow> sleep_inv timeout (caller_step timeout pick s)"
  by (cases "caller s"; cases "reporter s") (auto simp: sleep_inv_def caller_step_def)

lemma sleep_inv_reporter_step: "sleep_inv timeout s \<Longrightarrow> sleep_inv timeout (reporter_step s)"
  by (cases "reporter s"; cases "hc s") (auto simp: sleep_inv_def reporter_step_def)

lemma sleep_inv_step: "sleep_inv timeout s \<Longrightarrow> sleep_inv timeout (step timeout a s)"
  by (cases a)
    (simp_all add: step_def sleep_inv_advance sleep_inv_cancel_ctx sleep_inv_request sleep_inv_caller_step sleep_inv_reporter_step)

lemma sleep_inv_exec: "sleep_inv timeout s \<Longrightarrow> sleep_inv timeout (exec timeout acts s)"
  by (induction acts arbitrary: s) (simp_all add: sleep_inv_step)

lemma sleep_inv_run: "sleep_inv timeout (exec timeout acts (HealthySleep_start c flag))"
  by (simp add: sleep_inv_exec sleep_inv_start)

text \<open>With a flag in the context no goroutine panics.\<close>

lemma flag_step: "(hc (step timeout a s) = None) = (hc s = None)"
proof (cases a)
  case (Advance d)
  then show ?thesis by (simp add: step_def advance_def Let_def)
next
  case Cancel
  then show ?thesis by (simp add: step_def cancel_ctx_def Let_def)
next
  case Request
  then show ?thesis by (simp add: step_def request_def split: option.splits)
next
  case (Caller pick)
  then show ?thesis by (cases "caller s") (simp_all add: step_def caller_step_def)
next
  case Reporter
  then show ?thesis
    by (cases "reporter s") (simp_all add: step_def reporter_step_def split: option.splits)
qed

lemma flag_exec: "(hc (exec timeout acts s) = None) = (hc s = None)"
  by (induction acts arbitrary: s) (simp_all add: flag_step)

lemma alive_run: "\<not> panicked (exec timeout acts (HealthySleep_start c (Some b)))"
proof -
  have "hc (exec timeout acts (HealthySleep_start c (Some b))) \<noteq> None"
    by (simp add: flag_exec HealthySleep_start_def)
  with sleep_inv_run [of timeout acts c "Some b"] show ?thesis
    by (auto simp: sleep_inv_def)
qed

lemma still_open_step: "\<not> cancelled s \<Longrightarrow> Cancel \<noteq> a \<Longrightarrow> \<not> cancelled (step timeout a s)"
  by (cases a; cases "caller s"; cases "reporter s"; cases "hc s")
    (simp_all add: step_def advance_def request_def caller_step_def reporter_step_def Let_def)

lemma still_open_exec:
  "\<not> cancelled s \<Longrightarrow> Cancel \<notin> set acts \<Longrightarrow> \<not> cancelled (exec timeout acts s)"
  by (induction acts arbitrary: s) (simp_all add: still_open_step)

lemma cancel_seen_step: "0 < timeout \<Longrightarrow> cancel_seen s \<Longrightarrow> cancel_seen (step timeout a s)"
  by (cases a; cases "caller s"; cases "reporter s"; cases "hc s")
    (auto simp: cancel_seen_def step_def advance_def cancel_ctx_def request_def caller_step_def
      reporter_step_def Let_def)

lemma cancel_seen_exec: "0 < timeout \<Longrightarrow> cancel_seen s \<Longrightarrow> cancel_seen (exec timeout acts s)"
  by (induction acts arbitrary: s) (simp_all add: cancel_seen_step)

lemma cancel_seen_returns:
  "0 < timeout \<Longrightarrow> cancel_seen s \<Longrightarrow> \<not> panicked s \<Longrightarrow>
     returned (exec timeout [Caller p, Caller q] s) = Some False"
  by (cases "caller s") (auto simp: cancel_seen_def returned_def step_def caller_step_def)

lemma cancel_while_waiting:
  "caller s = CSelect \<or> caller s = CBlocked \<Longrightarrow> \<not> panicked s \<Longrightarrow> cancel_seen (step timeout Cancel s)"
  by (cases "reporter s") (auto simp: cancel_seen_def step_def cancel_ctx_def Let_def)

lemma returns_within_timeout:
  "sleep_inv timeout s \<Longrightarrow> \<not> panicked s \<Longrightarrow>
     returned (exec timeout [Caller p, Advance (nat timeout), Caller q] s) \<noteq> None"
  by (cases "caller s"; cases "reporter s")
    (auto simp: sleep_inv_def returned_def step_def caller_step_def advance_def Let_def)

lemma unstarted_step: "unstarted s \<Longrightarrow> Reporter \<noteq> a \<Longrightarrow> unstarted (step timeout a s)"
  by (cases a; cases "caller s")
    (simp_all add: unstarted_def step_def advance_def cancel_ctx_def request_def caller_step_def Let_def)

lemma unstarted_exec:
  "unstarted s \<Longrightarrow> Reporter \<notin> set acts \<Longrightarrow> unstarted (exec timeout acts s)"
  by (induction acts arbitrary: s) (simp_all add: unstarted_step)

lemma panicked_exec: "panicked s \<Longrightarrow> exec timeout acts s = s"
  by (induction acts) (simp_all add: step_def)

lemma owed_step: "owed (step timeout a s) \<le> owed s + (if a = Request then 1 else 0)"
  by (cases a; cases "caller s"; cases "reporter s"; cases "hc s")
    (simp_all add: owed_def step_def advance_def cancel_ctx_def request_def caller_step_def
      reporter_step_def Let_def)

lemma owed_exec: "owed (exec timeout acts s) \<le> owed s + count_list acts Request"
proof (induction acts arbitrary: s)
  case Nil
  then show ?case by simp
next
  case (Cons a acts)
  have "owed (exec timeout (a # acts) s) \<le> owed (step timeout a s) + count_list acts Request"
    using Cons.IH [of "step timeout a s"] by simp
  also have "\<dots> \<le> owed s + (if a = Request then 1 else 0) + count_list acts Request"
    using owed_step [of timeout a s] by simp
  finally show ?case by (cases "a = Request") simp_all
qed

lemma poll_serves:
  "hc s = Some old \<Longrightarrow> reporter s = RSwap \<Longrightarrow> \<not> panicked s \<Longrightarrow>
     hc (step timeout Reporter s) = Some False
     \<and> stdout (exec timeout [Reporter, Reporter] s) = (if old then stdout s @ [''HEALTHY''] else stdout s)
     \<and> hc (exec timeout [Reporter, Reporter] s) = Some False"
  by (simp add: step_def reporter_step_def)

lemma tick_serves:
  "sleep_inv timeout s \<Longrightarrow> \<not> panicked s \<Longrightarrow> hc s = Some True \<Longrightarrow> reporter s = RBlocked \<Longrightarrow>
     stdout (exec timeout [Advance 1000000000, Reporter, Reporter] s) = stdout s @ [''HEALTHY'']
     \<and> hc (exec timeout [Advance 1000000000, Reporter, Reporter] s) = Some False"
  by (cases "caller s")
    (auto simp: sleep_inv_def step_def advance_def reporter_step_def Let_def Second_def)

lemma after_return_step: "after_return out s \<Longrightarrow> after_return out (step timeout a s)"
  by (cases a; cases "caller s"; cases "reporter s"; cases "hc s")
    (auto simp: after_return_def step_def advance_def cancel_ctx_def request_def caller_step_def
      reporter_step_def Let_def)

lemma after_return_exec: "after_return out s \<Longrightarrow> after_return out (exec timeout acts s)"
  by (induction acts arbitrary: s) (simp_all add: after_return_step)

lemma finished_step:
  "reporter s = RDone \<Longrightarrow>
     reporter (step timeout a s) = RDone \<and> stdout (step timeout a s) = stdout s"
  by (cases a; cases "caller s"; cases "hc s")
    (simp_all add: step_def advance_def cancel_ctx_def request_def caller_step_def
      reporter_step_def Let_def)

lemma finished_exec:
  "reporter s = RDone \<Longrightarrow> stdout (exec timeout acts s) = stdout s"
proof (induction acts arbitrary: s)
  case Nil
  then show ?case by simp
next
  case (Cons a acts)
  from finished_step [OF Cons.prems, of timeout a] Cons.IH [of "step timeout a s"]
  show ?case by simp
qed

lemma reporter_stops:
  "sleep_inv timeout s \<Longrightarrow> stop s \<Longrightarrow> hc s = Some f \<Longrightarrow> \<not> panicked s \<Longrightarrow>
     reporter (exec timeout [Reporter, Advance 1000000000, Reporter, Reporter, Reporter] s) = RDone"
  by (cases "caller s"; cases "reporter s"; cases f)
    (auto simp: sleep_inv_def step_def advance_def reporter_step_def Let_def Second_def)

lemma reporter_inv_step: "reporter_inv s \<Longrightarrow> reporter_inv (step timeout a s)"
proof (cases a)
  case (Advance d)
  assume "reporter_inv s"
  with Advance show ?thesis
    by (cases "reporter s") (auto simp: reporter_inv_def step_def advance_def Let_def)
next
  case Cancel
  assume "reporter_inv s"
  with Cancel show ?thesis
    by (cases "reporter s") (auto simp: reporter_inv_def step_def cancel_ctx_def Let_def)
next
  case Request
  assume "reporter_inv s"
  with Request show ?thesis
    by (cases "hc s") (auto simp: reporter_inv_def step_def request_def)
next
  case (Caller pick)
  assume "reporter_inv s"
  with Caller show ?thesis
    by (cases "caller s") (auto simp: reporter_inv_def step_def caller_step_def)
next
  case Reporter
  assume "reporter_inv s"
  with Reporter show ?thesis
    by (cases "reporter s"; cases "hc s")
      (auto simp: reporter_inv_def step_def reporter_step_def Second_def)
qed

lemma reporter_inv_exec: "reporter_inv s \<Longrightarrow> reporter_inv (exec timeout acts s)"
  by (induction acts arbitrary: s) (simp_all add: reporter_inv_step)

lemma reporter_inv_run: "reporter_inv (exec timeout acts (HealthySleep_start c flag))"
  by (rule reporter_inv_exec) (simp add: reporter_inv_def HealthySleep_start_def)

lemma stdout_step:
  "stdout (step timeout a s) = stdout s
   \<or> a = Reporter \<and> reporter s = RPrint \<and> stdout (step timeout a s) = stdout s @ [''HEALTHY'']"
proof (cases a)
  case (Advance d)
  then show ?thesis by (simp add: step_def advance_def Let_def)
next
  case Cancel
  then show ?thesis by (simp add: step_def cancel_ctx_def Let_def)
next
  case Request
  then show ?thesis by (cases "hc s") (simp_all add: step_def request_def)
next
  case (Caller pick)
  then show ?thesis by (cases "caller s") (simp_all add: step_def caller_step_def)
next
  case Reporter
  then show ?thesis
    by (cases "reporter s"; cases "hc s") (simp_all add: step_def reporter_step_def)
qed

lemma healthy_step: "healthy s \<le> healthy (step timeout a s)"
  using stdout_step [of timeout a s] by (auto simp: healthy_def)

lemma healthy_exec: "healthy s \<le> healthy (exec timeout acts s)"
proof (induction acts arbitrary: s)
  case Nil
  then show ?case by simp
next
  case (Cons a acts)
  from healthy_step [of s timeout a] Cons.IH [of "step timeout a s"]
  show ?case by simp
qed

lemma pending_step: "pending n s \<Longrightarrow> pending n (step timeout a s)"
proof (cases a)
  case (Advance d)
  assume "pending n s"
  with Advance show ?thesis
    by (cases "reporter s") (auto simp: pending_def healthy_def step_def advance_def Let_def)
next
  case Cancel
  assume "pending n s"
  with Cancel show ?thesis
    by (cases "reporter s") (auto simp: pending_def healthy_def step_def cancel_ctx_def Let_def)
next
  case Request
  assume "pending n s"
  with Request show ?thesis
    by (cases "hc s") (auto simp: pending_def healthy_def step_def request_def)
next
  case (Caller pick)
  assume "pending n s"
  with Caller show ?thesis
    by (cases "caller s") (auto simp: pending_def healthy_def step_def caller_step_def)
next
  case Reporter
  assume "pending n s"
  with Reporter show ?thesis
    by (cases "reporter s"; cases "hc s")
      (auto simp: pending_def healthy_def step_def reporter_step_def)
qed

lemma pending_exec: "pending n s \<Longrightarrow> pending n (exec timeout acts s)"
  by (induction acts arbitrary: s) (simp_all add: pending_step)

lemma frame_Reporter:
  "stop (step timeout Reporter s) = stop s" "cancelled (step timeout Reporter s) = cancelled s"
  by (cases "reporter s"; cases "hc s"; simp add: step_def reporter_step_def)+

lemma frame_Advance:
  "stop (step timeout (Advance d) s) = stop s" "cancelled (step timeout (Advance d) s) = cancelled s"
  by (simp_all add: step_def advance_def Let_def)

lemma next_poll_frame:
  "stop (exec timeout next_poll s) = stop s \<and> cancelled (exec timeout next_poll s) = cancelled s"
  by (simp add: next_poll_def frame_Reporter frame_Advance)

text \<open>Three steps of a running reporter print the line that is due or park it.\<close>

lemma three_steps:
  assumes "\<not> panicked s" and "hc s = Some f" and "\<not> stop s" and "\<not> cancelled s"
    and "pending n s" and "reporter s \<noteq> RDone"
  shows "n < healthy (exec timeout [Reporter, Reporter, Reporter] s)
       \<or> (hc (exec timeout [Reporter, Reporter, Reporter] s) = Some True
          \<and> reporter (exec timeout [Reporter, Reporter, Reporter] s) = RBlocked
          \<and> n = healthy (exec timeout [Reporter, Reporter, Reporter] s))"
  using assms
  by (cases "reporter s"; cases f)
    (auto simp: pending_def healthy_def step_def reporter_step_def)

lemma next_poll_serves:
  assumes i: "sleep_inv timeout s" and r: "reporter_inv s" and flag: "hc s = Some f"
    and running: "\<not> stop s" "\<not> cancelled s" and due: "pending n s"
  shows "n < healthy (exec timeout next_poll s)"
proof -
  let ?t = "exec timeout [Reporter, Reporter, Reporter] s"
  have split: "exec timeout next_poll s = exec timeout [Advance 1000000000, Reporter, Reporter] ?t"
    by (simp add: next_poll_def)
  from i flag have alive: "\<not> panicked s" by (auto simp: sleep_inv_def)
  from r running have "reporter s \<noteq> RDone" by (auto simp: reporter_inv_def)
  from three_steps [OF alive flag running due this, of timeout]
  consider "n < healthy ?t"
    | "hc ?t = Some True" "reporter ?t = RBlocked" "n = healthy ?t"
    by blast
  then show ?thesis
  proof cases
    case 1
    with healthy_exec [of ?t timeout "[Advance 1000000000, Reporter, Reporter]"] show ?thesis
      unfolding split by simp
  next
    case 2
    have it: "sleep_inv timeout ?t" using i by (rule sleep_inv_exec)
    with 2 have "\<not> panicked ?t" by (auto simp: sleep_inv_def)
    from tick_serves [OF it this 2(1) 2(2)] 2(3) show ?thesis
      unfolding split by (simp add: healthy_def)
  qed
qed

text \<open>
  C1, as stated, fails for a timeout of zero with a context that is done already: both
  cases of the \<open>select\<close> are ready, and when Go picks \<open>ctx.Done()\<close> the call returns
  \<open>false\<close>, not \<open>true\<close>.
\<close>

theorem cancelled_zero_timeout_returns_false:
  "returned (exec 0 [Caller False, Caller False] (HealthySleep_start True (Some False))) = Some False"
  by (simp add: HealthySleep_start_def step_def caller_step_def returned_def)

text \<open>
  C1, amended, for a context that carries the flag. The call returns \<open>false\<close> only with
  the context done and \<open>true\<close> only with the timeout elapsed. For a positive timeout: a
  context done at the call, or cancelled while the caller has not been woken by its
  timer, makes the call return \<open>false\<close> as soon as the caller runs. Without any
  cancellation the call returns \<open>true\<close> once the timeout has passed, and for a timeout of
  zero or less at once, with no time passing. For a timeout of zero or less with the
  context done already, the call returns what its \<open>select\<close> picks. After every schedule
  the call returns once the timeout has passed.
\<close>

theorem HealthySleep_return_value:
  "(returned (exec timeout acts (HealthySleep_start c (Some b))) = Some False \<longrightarrow>
      cancelled (exec timeout acts (HealthySleep_start c (Some b))))
   \<and> (returned (exec timeout acts (HealthySleep_start c (Some b))) = Some True \<longrightarrow>
      timeout \<le> now (exec timeout acts (HealthySleep_start c (Some b))))
   \<and> (0 < timeout \<and> c \<longrightarrow>
      returned (exec timeout (acts @ [Caller p, Caller q]) (HealthySleep_start c (Some b))) = Some False)
   \<and> (0 < timeout \<and> (caller (exec timeout acts (HealthySleep_start c (Some b))) = CSelect
                     \<or> caller (exec timeout acts (HealthySleep_start c (Some b))) = CBlocked) \<longrightarrow>
      returned (exec timeout (acts @ Cancel # rest @ [Caller p, Caller q]) (HealthySleep_start c (Some b)))
        = Some False)
   \<and> (\<not> c \<and> Cancel \<notin> set acts \<longrightarrow>
      returned (exec timeout (acts @ [Caller p, Advance (nat timeout), Caller q])
        (HealthySleep_start c (Some b))) = Some True)
   \<and> (\<not> c \<and> timeout \<le> 0 \<longrightarrow>
      returned (exec timeout [Caller p, Caller q] (HealthySleep_start c (Some b))) = Some True
      \<and> now (exec timeout [Caller p, Caller q] (HealthySleep_start c (Some b))) = 0)
   \<and> (c \<and> timeout \<le> 0 \<longrightarrow>
      returned (exec timeout [Caller p, Caller q] (HealthySleep_start c (Some b))) = Some p)
   \<and> returned (exec timeout (acts @ [Caller p, Advance (nat timeout), Caller q])
        (HealthySleep_start c (Some b))) \<noteq> None"
  (is "?A \<and> ?B \<and> ?C \<and> ?D \<and> ?E \<and> ?F \<and> ?H \<and> ?G")
proof -
  let ?init = "HealthySleep_start c (Some b)"
  let ?s = "exec timeout acts ?init"
  have i: "sleep_inv timeout ?s" by (rule sleep_inv_run)
  have alive: "\<not> panicked ?s" by (rule alive_run)
  have A: ?A using i by (auto simp: sleep_inv_def returned_def split: caller_pc.splits)
  have B: ?B using i by (auto simp: sleep_inv_def returned_def split: caller_pc.splits)
  have C: ?C
  proof (intro impI)
    assume h: "0 < timeout \<and> c"
    then have pos: "0 < timeout" and "cancel_seen ?init"
      by (simp_all add: cancel_seen_def HealthySleep_start_def)
    then have "cancel_seen ?s" by (rule cancel_seen_exec)
    from cancel_seen_returns [OF pos this alive]
    show "returned (exec timeout (acts @ [Caller p, Caller q]) ?init) = Some False"
      unfolding exec_append .
  qed
  have D: ?D
  proof (intro impI)
    assume h: "0 < timeout \<and> (caller ?s = CSelect \<or> caller ?s = CBlocked)"
    then have pos: "0 < timeout" and waiting: "caller ?s = CSelect \<or> caller ?s = CBlocked"
      by simp_all
    from cancel_while_waiting [OF waiting alive]
    have "cancel_seen (step timeout Cancel ?s)" .
    with pos have "cancel_seen (exec timeout rest (step timeout Cancel ?s))"
      by (rule cancel_seen_exec)
    then have seen: "cancel_seen (exec timeout (acts @ Cancel # rest) ?init)"
      by (simp add: exec_append)
    have "\<not> panicked (exec timeout (acts @ Cancel # rest) ?init)" by (rule alive_run)
    from cancel_seen_returns [OF pos seen this]
    show "returned (exec timeout (acts @ Cancel # rest @ [Caller p, Caller q]) ?init) = Some False"
      by (simp add: exec_append)
  qed
  have G: ?G
    unfolding exec_append using i alive by (rule returns_within_timeout)
  have E: ?E
  proof (intro impI)
    let ?t = "exec timeout (acts @ [Caller p, Advance (nat timeout), Caller q]) ?init"
    assume h: "\<not> c \<and> Cancel \<notin> set acts"
    then have "\<not> cancelled ?t"
      by (intro still_open_exec) (simp_all add: HealthySleep_start_def)
    moreover have "sleep_inv timeout ?t" by (rule sleep_inv_run)
    ultimately have "returned ?t \<noteq> Some False"
      by (auto simp: sleep_inv_def returned_def split: caller_pc.splits)
    with G show "returned ?t = Some True" by (cases "returned ?t") auto
  qed
  have F: ?F
    by (simp add: HealthySleep_start_def step_def caller_step_def returned_def)
  have H: ?H
    by (simp add: HealthySleep_start_def step_def caller_step_def returned_def)
  from A B C D E F H G show ?thesis by blast
qed

text \<open>
  Instances with a timeout of a minute: a cancellation after one second, the plain
  timeout, a context that is done at the call; and with a timeout of zero.
\<close>

theorem HealthySleep_return_value_witness:
  "caller (exec 60000000000 [Caller True, Advance 1000000000] (HealthySleep_start False (Some False))) = CBlocked
   \<and> returned (exec 60000000000 [Caller True, Advance 1000000000, Cancel, Caller True, Caller True]
        (HealthySleep_start False (Some False))) = Some False
   \<and> cancelled (exec 60000000000 [Caller True, Advance 1000000000, Cancel, Caller True, Caller True]
        (HealthySleep_start False (Some False)))
   \<and> returned (exec 60000000000 [Caller True, Advance 60000000000, Caller True]
        (HealthySleep_start False (Some False))) = Some True
   \<and> 60000000000 \<le> now (exec 60000000000 [Caller True, Advance 60000000000, Caller True]
        (HealthySleep_start False (Some False)))
   \<and> returned (exec 60000000000 [Caller True, Caller True] (HealthySleep_start True (Some False))) = Some False
   \<and> returned (exec 0 [Caller True, Caller True] (HealthySleep_start False (Some False))) = Some True
   \<and> now (exec 0 [Caller True, Caller True] (HealthySleep_start False (Some False))) = 0
   \<and> returned (exec 0 [Caller True, Caller True] (HealthySleep_start True (Some False))) = Some True"
proof -
  have waiting:
    "caller (exec 60000000000 [Caller True, Advance 1000000000] (HealthySleep_start False (Some False)))
       = CBlocked"
    by (simp add: sleep_defs)
  from HealthySleep_return_value
    [where timeout = 60000000000 and acts = "[Caller True, Advance 1000000000]" and c = False
       and b = False and rest = "[]" and p = True and q = True] waiting
  have f1: "returned (exec 60000000000 [Caller True, Advance 1000000000, Cancel, Caller True, Caller True]
        (HealthySleep_start False (Some False))) = Some False"
    by simp
  from HealthySleep_return_value
    [where timeout = 60000000000 and acts = "[Caller True, Advance 1000000000, Cancel, Caller True, Caller True]"
       and c = False and b = False] f1
  have f2: "cancelled (exec 60000000000 [Caller True, Advance 1000000000, Cancel, Caller True, Caller True]
        (HealthySleep_start False (Some False)))"
    by blast
  from HealthySleep_return_value
    [where timeout = 60000000000 and acts = "[]" and c = False and b = False and p = True and q = True]
  have f3: "returned (exec 60000000000 [Caller True, Advance 60000000000, Caller True]
        (HealthySleep_start False (Some False))) = Some True"
    by simp
  from HealthySleep_return_value
    [where timeout = 60000000000 and acts = "[Caller True, Advance 60000000000, Caller True]"
       and c = False and b = False] f3
  have f4: "60000000000 \<le> now (exec 60000000000 [Caller True, Advance 60000000000, Caller True]
        (HealthySleep_start False (Some False)))"
    by blast
  from HealthySleep_return_value
    [where timeout = 60000000000 and acts = "[]" and c = True and b = False and p = True and q = True]
  have f5: "returned (exec 60000000000 [Caller True, Caller True] (HealthySleep_start True (Some False)))
      = Some False"
    by simp
  from HealthySleep_return_value
    [where timeout = 0 and c = False and b = False and p = True and q = True]
  have f6: "returned (exec 0 [Caller True, Caller True] (HealthySleep_start False (Some False))) = Some True
      \<and> now (exec 0 [Caller True, Caller True] (HealthySleep_start False (Some False))) = 0"
    by simp
  from HealthySleep_return_value
    [where timeout = 0 and c = True and b = False and p = True and q = True]
  have f7: "returned (exec 0 [Caller True, Caller True] (HealthySleep_start True (Some False))) = Some True"
    by simp
  from waiting f1 f2 f3 f4 f5 f6 f7 show ?thesis by blast
qed

text \<open>
  C2, as stated, fails: with a timeout of 1.5 seconds and a request at 1.2 seconds the
  call returns \<open>true\<close> with nothing printed and the flag still set.
\<close>

theorem request_after_last_poll:
  "returned (exec 1500000000 late_request (HealthySleep_start False (Some False))) = Some True
   \<and> Request \<in> set late_request
   \<and> stdout (exec 1500000000 late_request (HealthySleep_start False (Some False))) = []
   \<and> hc (exec 1500000000 late_request (HealthySleep_start False (Some False))) = Some True"
  by (simp add: late_request_def HealthySleep_start_def returned_def step_def advance_def
      request_def caller_step_def reporter_step_def Second_def)

text \<open>
  C2, amended. A poll of the reporter reads and clears the flag in one step and prints
  \<open>HEALTHY\<close> exactly when it read \<open>true\<close>; the flag reads \<open>false\<close> after it. Over a whole
  call no more lines \<open>HEALTHY\<close> are printed than requests were made (counting a flag
  that was set at the call). A request that finds the reporter parked is reported at its
  tick, a second later. While the call has neither returned nor been cancelled the
  reporter has not returned, and it goes on polling: after a poll it parks for one second
  unless \<open>stop\<close> is set or the context is done (then it returns, as it does when the
  context is cancelled while it is parked), and wakes to poll again when that second is
  over. So a request that is pending at any point of the call, whatever the timeout,
  has been reported by the reporter's next poll, provided the call has neither returned
  nor been cancelled by then: a line \<open>HEALTHY\<close> is written before the call returns.
\<close>

theorem HealthySleep_reports:
  "(hc s = Some old \<and> reporter s = RSwap \<and> \<not> panicked s \<longrightarrow>
      hc (step timeout Reporter s) = Some False
      \<and> stdout (exec timeout [Reporter, Reporter] s) = (if old then stdout s @ [''HEALTHY''] else stdout s)
      \<and> hc (exec timeout [Reporter, Reporter] s) = Some False)
   \<and> count_list (stdout (exec timeout acts (HealthySleep_start c (Some b)))) ''HEALTHY''
       \<le> (if b then 1 else 0) + count_list acts Request
   \<and> (hc (exec timeout acts (HealthySleep_start c (Some b))) = Some True
       \<and> reporter (exec timeout acts (HealthySleep_start c (Some b))) = RBlocked \<longrightarrow>
      stdout (exec timeout (acts @ [Advance 1000000000, Reporter, Reporter]) (HealthySleep_start c (Some b)))
        = stdout (exec timeout acts (HealthySleep_start c (Some b))) @ [''HEALTHY'']
      \<and> hc (exec timeout (acts @ [Advance 1000000000, Reporter, Reporter]) (HealthySleep_start c (Some b)))
        = Some False)
   \<and> (returned (exec timeout acts (HealthySleep_start c (Some b))) = None
       \<and> \<not> cancelled (exec timeout acts (HealthySleep_start c (Some b))) \<longrightarrow>
      reporter (exec timeout acts (HealthySleep_start c (Some b))) \<noteq> RDone)
   \<and> (hc (exec timeout acts (HealthySleep_start c (Some b))) = Some True
       \<and> returned (exec timeout (acts @ between @ next_poll) (HealthySleep_start c (Some b))) = None
       \<and> \<not> cancelled (exec timeout (acts @ between @ next_poll) (HealthySleep_start c (Some b))) \<longrightarrow>
      count_list (stdout (exec timeout acts (HealthySleep_start c (Some b)))) ''HEALTHY''
        < count_list (stdout (exec timeout (acts @ between @ next_poll) (HealthySleep_start c (Some b))))
            ''HEALTHY'')
   \<and> (reporter s = RLoad \<and> \<not> panicked s \<longrightarrow>
      reporter (step timeout Reporter s) = (if stop s then RDone else RSelect))
   \<and> (reporter s = RSelect \<and> \<not> cancelled s \<and> \<not> panicked s \<longrightarrow>
      reporter (step timeout Reporter s) = RBlocked
      \<and> reporter_timer (step timeout Reporter s) = now s + 1000000000)
   \<and> (reporter s = RBlocked \<and> \<not> panicked s \<longrightarrow>
      reporter (step timeout (Advance d) s)
        = (if reporter_timer s \<le> now s + int d then RSwap else RBlocked))
   \<and> (reporter s = RSelect \<and> cancelled s \<and> \<not> panicked s \<longrightarrow>
      reporter (step timeout Reporter s) = RDone)
   \<and> (reporter s = RBlocked \<and> \<not> panicked s \<longrightarrow> reporter (step timeout Cancel s) = RDone)"
  (is "?A \<and> ?B \<and> ?C \<and> ?D \<and> ?E \<and> ?F \<and> ?G \<and> ?H \<and> ?I \<and> ?J")
proof -
  let ?init = "HealthySleep_start c (Some b)"
  let ?s = "exec timeout acts ?init"
  let ?t = "exec timeout (acts @ between) ?init"
  have A: ?A using poll_serves [of s old timeout] by blast
  have "count_list (stdout ?s) ''HEALTHY'' \<le> owed ?s"
    by (simp add: owed_def)
  also have "\<dots> \<le> owed ?init + count_list acts Request" by (rule owed_exec)
  also have "owed ?init = (if b then 1 else 0)" by (simp add: owed_def HealthySleep_start_def)
  finally have B: ?B .
  have C: ?C
    unfolding exec_append
    using tick_serves [OF sleep_inv_run alive_run, of timeout acts c b] by blast
  have D: ?D
    using sleep_inv_run [of timeout acts c "Some b"] reporter_inv_run [of timeout acts c "Some b"]
    by (auto simp: sleep_inv_def reporter_inv_def returned_def)
  have E: ?E
  proof (intro impI)
    assume h: "hc ?s = Some True
       \<and> returned (exec timeout (acts @ between @ next_poll) ?init) = None
       \<and> \<not> cancelled (exec timeout (acts @ between @ next_poll) ?init)"
    have final: "exec timeout (acts @ between @ next_poll) ?init = exec timeout next_poll ?t"
      by (simp add: exec_append)
    have it: "sleep_inv timeout ?t" by (rule sleep_inv_run)
    have rt: "reporter_inv ?t" by (rule reporter_inv_run)
    have "sleep_inv timeout (exec timeout next_poll ?t)" using it by (rule sleep_inv_exec)
    with h have "\<not> stop (exec timeout next_poll ?t)"
      unfolding final by (auto simp: sleep_inv_def returned_def)
    with h have running: "\<not> stop ?t" "\<not> cancelled ?t"
      unfolding final by (simp_all add: next_poll_frame)
    obtain f where flag: "hc ?t = Some f"
      using flag_exec [of timeout "acts @ between" ?init] by (auto simp: HealthySleep_start_def)
    from h have "pending (healthy ?s) ?s" by (simp add: pending_def)
    then have "pending (healthy ?s) (exec timeout between ?s)" by (rule pending_exec)
    then have due: "pending (healthy ?s) ?t" by (simp add: exec_append)
    from next_poll_serves [OF it rt flag running due]
    show "count_list (stdout ?s) ''HEALTHY''
        < count_list (stdout (exec timeout (acts @ between @ next_poll) ?init)) ''HEALTHY''"
      unfolding final by (simp add: healthy_def)
  qed
  have F: ?F by (simp add: step_def reporter_step_def)
  have G: ?G by (simp add: step_def reporter_step_def Second_def)
  have H: ?H by (cases "caller s") (auto simp: step_def advance_def Let_def)
  have I: ?I by (simp add: step_def reporter_step_def)
  have J: ?J by (cases "caller s") (auto simp: step_def cancel_ctx_def Let_def)
  from A B C D E F G H I J show ?thesis by blast
qed

text \<open>
  Instances: a flag set at the call is reported by the first poll; a request made while
  the reporter waits is reported at its tick, once; three seconds into a sleep of a
  minute the reporter is still running, and a request made then is reported by its next
  poll.
\<close>

theorem HealthySleep_reports_witness:
  "hc (HealthySleep_start False (Some True)) = Some True
   \<and> reporter (HealthySleep_start False (Some True)) = RSwap
   \<and> \<not> panicked (HealthySleep_start False (Some True))
   \<and> stdout (exec 60000000000 [Reporter, Reporter] (HealthySleep_start False (Some True))) = [''HEALTHY'']
   \<and> hc (exec 60000000000 [Reporter, Reporter] (HealthySleep_start False (Some True))) = Some False
   \<and> hc (exec 60000000000 [Reporter, Reporter, Reporter, Request] (HealthySleep_start False (Some False)))
       = Some True
   \<and> reporter (exec 60000000000 [Reporter, Reporter, Reporter, Request] (HealthySleep_start False (Some False)))
       = RBlocked
   \<and> stdout (exec 60000000000 [Reporter, Reporter, Reporter, Request, Advance 1000000000, Reporter, Reporter]
        (HealthySleep_start False (Some False))) = [''HEALTHY'']
   \<and> count_list (stdout (exec 60000000000
        [Reporter, Reporter, Reporter, Request, Advance 1000000000, Reporter, Reporter, Advance 1000000000,
         Reporter, Reporter] (HealthySleep_start False (Some False)))) ''HEALTHY'' \<le> 1
   \<and> reporter (exec 60000000000 [Caller True, Advance 3000000000, Reporter, Reporter]
        (HealthySleep_start False (Some False))) \<noteq> RDone
   \<and> count_list (stdout (exec 60000000000 [Caller True, Reporter, Reporter, Advance 3000000000, Request]
        (HealthySleep_start False (Some False)))) ''HEALTHY''
       < count_list (stdout (exec 60000000000
           ([Caller True, Reporter, Reporter, Advance 3000000000, Request] @ [Caller True] @ next_poll)
           (HealthySleep_start False (Some False)))) ''HEALTHY''"
proof -
  have start: "hc (HealthySleep_start False (Some True)) = Some True"
    "reporter (HealthySleep_start False (Some True)) = RSwap"
    "\<not> panicked (HealthySleep_start False (Some True))"
    "stdout (HealthySleep_start False (Some True)) = []"
    by (simp_all add: HealthySleep_start_def)
  from HealthySleep_reports
    [where s = "HealthySleep_start False (Some True)" and old = True and timeout = 60000000000] start
  have f1: "stdout (exec 60000000000 [Reporter, Reporter] (HealthySleep_start False (Some True))) = [''HEALTHY'']"
    and f2: "hc (exec 60000000000 [Reporter, Reporter] (HealthySleep_start False (Some True))) = Some False"
    by simp_all
  have pending:
    "hc (exec 60000000000 [Reporter, Reporter, Reporter, Request] (HealthySleep_start False (Some False)))
       = Some True"
    "reporter (exec 60000000000 [Reporter, Reporter, Reporter, Request] (HealthySleep_start False (Some False)))
       = RBlocked"
    "stdout (exec 60000000000 [Reporter, Reporter, Reporter, Request] (HealthySleep_start False (Some False)))
       = []"
    by (simp_all add: sleep_defs)
  from HealthySleep_reports
    [where timeout = 60000000000 and acts = "[Reporter, Reporter, Reporter, Request]"
       and c = False and b = False] pending
  have f3: "stdout (exec 60000000000 [Reporter, Reporter, Reporter, Request, Advance 1000000000, Reporter, Reporter]
        (HealthySleep_start False (Some False))) = [''HEALTHY'']"
    by simp
  from HealthySleep_reports
    [where timeout = 60000000000 and c = False and b = False
       and acts = "[Reporter, Reporter, Reporter, Request, Advance 1000000000, Reporter, Reporter,
         Advance 1000000000, Reporter, Reporter]"]
  have f4: "count_list (stdout (exec 60000000000
        [Reporter, Reporter, Reporter, Request, Advance 1000000000, Reporter, Reporter, Advance 1000000000,
         Reporter, Reporter] (HealthySleep_start False (Some False)))) ''HEALTHY'' \<le> 1"
    by simp
  have running:
    "returned (exec 60000000000 [Caller True, Advance 3000000000, Reporter, Reporter]
        (HealthySleep_start False (Some False))) = None"
    "\<not> cancelled (exec 60000000000 [Caller True, Advance 3000000000, Reporter, Reporter]
        (HealthySleep_start False (Some False)))"
    by (simp_all add: sleep_defs)
  from HealthySleep_reports
    [where timeout = 60000000000 and c = False and b = False
       and acts = "[Caller True, Advance 3000000000, Reporter, Reporter]"] running
  have f5: "reporter (exec 60000000000 [Caller True, Advance 3000000000, Reporter, Reporter]
        (HealthySleep_start False (Some False))) \<noteq> RDone"
    by blast
  have requested:
    "hc (exec 60000000000 [Caller True, Reporter, Reporter, Advance 3000000000, Request]
        (HealthySleep_start False (Some False))) = Some True"
    "returned (exec 60000000000
        ([Caller True, Reporter, Reporter, Advance 3000000000, Request] @ [Caller True] @ next_poll)
        (HealthySleep_start False (Some False))) = None"
    "\<not> cancelled (exec 60000000000
        ([Caller True, Reporter, Reporter, Advance 3000000000, Request] @ [Caller True] @ next_poll)
        (HealthySleep_start False (Some False)))"
    by (simp_all add: next_poll_def sleep_defs)
  from HealthySleep_reports
    [where timeout = 60000000000 and c = False and b = False
       and acts = "[Caller True, Reporter, Reporter, Advance 3000000000, Request]"
       and between = "[Caller True]"] requested
  have f6: "count_list (stdout (exec 60000000000 [Caller True, Reporter, Reporter, Advance 3000000000, Request]
        (HealthySleep_start False (Some False)))) ''HEALTHY''
       < count_list (stdout (exec 60000000000
           ([Caller True, Reporter, Reporter, Advance 3000000000, Request] @ [Caller True] @ next_poll)
           (HealthySleep_start False (Some False)))) ''HEALTHY''"
    by blast
  from start f1 f2 pending f3 f4 f5 f6 show ?thesis by blast
qed

text \<open>
  C4 on the code: with no flag in the context the diagnostic line is printed, and the
  first step of the reporter (\<open>hc.Swap(false)\<close> on nil) panics, whatever happened before;
  nothing happens in the process after that.
\<close>

theorem missing_flag_panics:
  "stdout (HealthySleep_start c None) = [''context passed to HealthySleep without healthcheck value'']
   \<and> (Reporter \<notin> set before \<longrightarrow>
        panicked (exec timeout (before @ Reporter # after) (HealthySleep_start c None))
        \<and> exec timeout (before @ Reporter # after) (HealthySleep_start c None)
            = (exec timeout before (HealthySleep_start c None))\<lparr>panicked := True\<rparr>)"
proof -
  have "panicked (exec timeout (before @ Reporter # after) (HealthySleep_start c None))
        \<and> exec timeout (before @ Reporter # after) (HealthySleep_start c None)
            = (exec timeout before (HealthySleep_start c None))\<lparr>panicked := True\<rparr>"
    if none: "Reporter \<notin> set before"
  proof -
    let ?s = "exec timeout before (HealthySleep_start c None)"
    have "unstarted (HealthySleep_start c None)"
      by (simp add: unstarted_def HealthySleep_start_def)
    from unstarted_exec [OF this none] have u: "unstarted ?s" .
    then have st: "step timeout Reporter ?s = ?s\<lparr>panicked := True\<rparr>"
      by (simp add: unstarted_def step_def reporter_step_def)
    have "exec timeout (before @ Reporter # after) (HealthySleep_start c None)
        = exec timeout after (?s\<lparr>panicked := True\<rparr>)"
      by (simp add: exec_append st)
    also have "\<dots> = ?s\<lparr>panicked := True\<rparr>"
      by (rule panicked_exec) simp
    finally show ?thesis by simp
  qed
  then show ?thesis by (simp add: HealthySleep_start_def)
qed

text \<open>
  An instance with a timeout of a minute: the caller parks, five seconds pass, the
  reporter runs and panics; the call never returns.
\<close>

theorem missing_flag_panics_witness:
  "Reporter \<notin> set [Caller True, Advance 5000000000]
   \<and> panicked (exec 60000000000 ([Caller True, Advance 5000000000] @ Reporter # [Advance 60000000000, Caller True])
        (HealthySleep_start False None))
   \<and> returned (exec 60000000000 ([Caller True, Advance 5000000000] @ Reporter # [Advance 60000000000, Caller True])
        (HealthySleep_start False None)) = None"
proof -
  have none: "Reporter \<notin> set [Caller True, Advance 5000000000]" by simp
  from missing_flag_panics
    [where timeout = 60000000000 and before = "[Caller True, Advance 5000000000]"
       and after = "[Advance 60000000000, Caller True]" and c = False] none
  have p: "panicked (exec 60000000000 ([Caller True, Advance 5000000000] @ Reporter # [Advance 60000000000, Caller True])
        (HealthySleep_start False None))"
    and e: "exec 60000000000 ([Caller True, Advance 5000000000] @ Reporter # [Advance 60000000000, Caller True])
        (HealthySleep_start False None)
      = (exec 60000000000 [Caller True, Advance 5000000000] (HealthySleep_start False None))\<lparr>panicked := True\<rparr>"
    by blast+
  have "returned (exec 60000000000 ([Caller True, Advance 5000000000] @ Reporter # [Advance 60000000000, Caller True])
        (HealthySleep_start False None)) = None"
    unfolding e by (simp add: sleep_defs)
  with none p show ?thesis by blast
qed

text \<open>
  C5, as stated, fails: after the example schedule \<open>late_request\<close> the call has returned
  with nothing printed, and half a second later the reporter's tick prints \<open>HEALTHY\<close>.
\<close>

theorem report_after_return:
  "returned (exec 1500000000 late_request (HealthySleep_start False (Some False))) = Some True
   \<and> stdout (exec 1500000000 late_request (HealthySleep_start False (Some False))) = []
   \<and> stdout (exec 1500000000 (late_request @ [Advance 500000000, Reporter, Reporter])
        (HealthySleep_start False (Some False))) = [''HEALTHY'']"
  by (simp add: late_request_def HealthySleep_start_def returned_def step_def advance_def
      request_def caller_step_def reporter_step_def Second_def)

text \<open>
  C5, amended. Once the call has returned, the reporter prints at most one more line
  \<open>HEALTHY\<close>, whatever happens, and it has returned after its next tick; a reporter that
  has returned prints nothing.
\<close>

theorem reporter_ends_after_return:
  "(returned (exec timeout acts (HealthySleep_start c (Some b))) = Some r \<longrightarrow>
      (stdout (exec timeout (acts @ later) (HealthySleep_start c (Some b)))
         = stdout (exec timeout acts (HealthySleep_start c (Some b)))
       \<or> stdout (exec timeout (acts @ later) (HealthySleep_start c (Some b)))
         = stdout (exec timeout acts (HealthySleep_start c (Some b))) @ [''HEALTHY''])
      \<and> reporter (exec timeout (acts @ [Reporter, Advance 1000000000, Reporter, Reporter, Reporter])
           (HealthySleep_start c (Some b))) = RDone)
   \<and> (reporter (exec timeout acts (HealthySleep_start c (Some b))) = RDone \<longrightarrow>
      stdout (exec timeout (acts @ later) (HealthySleep_start c (Some b)))
        = stdout (exec timeout acts (HealthySleep_start c (Some b))))"
  (is "(?R \<longrightarrow> ?A \<and> ?B) \<and> ?C")
proof -
  let ?init = "HealthySleep_start c (Some b)"
  let ?s = "exec timeout acts ?init"
  have i: "sleep_inv timeout ?s" by (rule sleep_inv_run)
  have alive: "\<not> panicked ?s" by (rule alive_run)
  obtain f where flag: "hc ?s = Some f"
    using flag_exec [of timeout acts ?init] by (auto simp: HealthySleep_start_def)
  have C: ?C by (simp add: exec_append finished_exec)
  have AB: "?A \<and> ?B" if ret: ?R
  proof -
    from ret i have st: "stop ?s"
      by (auto simp: sleep_inv_def returned_def split: caller_pc.splits)
    then have "after_return (stdout ?s) ?s" by (simp add: after_return_def)
    then have "after_return (stdout ?s) (exec timeout later ?s)" by (rule after_return_exec)
    then have A: ?A by (auto simp: after_return_def exec_append)
    from reporter_stops [OF i st flag alive] have B: ?B by (simp add: exec_append)
    from A B show ?thesis ..
  qed
  with C show ?thesis by blast
qed

text \<open>
  Instances on the example schedule: after the return the reporter prints the pending
  request at its tick and returns; a later request is not printed by it.
\<close>

theorem reporter_ends_after_return_witness:
  "returned (exec 1500000000 late_request (HealthySleep_start False (Some False))) = Some True
   \<and> reporter (exec 1500000000
        (late_request @ [Reporter, Advance 1000000000, Reporter, Reporter, Reporter])
        (HealthySleep_start False (Some False))) = RDone
   \<and> (stdout (exec 1500000000 (late_request @ [Advance 500000000, Reporter, Reporter, Request, Reporter])
         (HealthySleep_start False (Some False))) = []
      \<or> stdout (exec 1500000000 (late_request @ [Advance 500000000, Reporter, Reporter, Request, Reporter])
         (HealthySleep_start False (Some False))) = [''HEALTHY''])
   \<and> stdout (exec 1500000000
        ((late_request @ [Reporter, Advance 1000000000, Reporter, Reporter, Reporter])
          @ [Request, Advance 1000000000, Reporter, Reporter])
        (HealthySleep_start False (Some False))) = [''HEALTHY'']"
proof -
  have ret: "returned (exec 1500000000 late_request (HealthySleep_start False (Some False))) = Some True"
    and out: "stdout (exec 1500000000 late_request (HealthySleep_start False (Some False))) = []"
    by (simp_all add: late_request_def sleep_defs)
  note inst = reporter_ends_after_return
    [where timeout = 1500000000 and acts = late_request and c = False and b = False and r = True
       and later = "[Advance 500000000, Reporter, Reporter, Request, Reporter]"]
  from inst ret have f1: "reporter (exec 1500000000
        (late_request @ [Reporter, Advance 1000000000, Reporter, Reporter, Reporter])
        (HealthySleep_start False (Some False))) = RDone"
    by blast
  from inst ret out have f2:
    "stdout (exec 1500000000 (late_request @ [Advance 500000000, Reporter, Reporter, Request, Reporter])
         (HealthySleep_start False (Some False))) = []
      \<or> stdout (exec 1500000000 (late_request @ [Advance 500000000, Reporter, Reporter, Request, Reporter])
         (HealthySleep_start False (Some False))) = [''HEALTHY'']"
    by simp
  have out2: "stdout (exec 1500000000
        (late_request @ [Reporter, Advance 1000000000, Reporter, Reporter, Reporter])
        (HealthySleep_start False (Some False))) = [''HEALTHY'']"
    by (simp add: late_request_def sleep_defs)
  from reporter_ends_after_return
    [where timeout = 1500000000 and c = False and b = False
       and acts = "late_request @ [Reporter, Advance 1000000000, Reporter, Reporter, Reporter]"
       and later = "[Request, Advance 1000000000, Reporter, Reporter]"] f1 out2
  have f3: "stdout (exec 1500000000
        ((late_request @ [Reporter, Advance 1000000000, Reporter, Reporter, Reporter])
          @ [Request, Advance 1000000000, Reporter, Reporter])
        (HealthySleep_start False (Some False))) = [''HEALTHY'']"
    by simp
  from ret f1 f2 f3 show ?thesis by blast
qed

end
